theory Spec2Isabelle
  imports Complex_Main
begin

section \<open>Data model\<close>

text \<open>
  The notebooks of the tutorial drive a path-sampling simulation: a sample set holds one
  sample per ensemble, each sample being a replica id, an ensemble and a trajectory (a
  finite sequence of snapshots). Ensembles \<open>'e\<close> and snapshots \<open>'x\<close> are left abstract.
\<close>

datatype error =
    KeyError
  | IndexError
  | IncompleteInitializationError

record ('e, 'x) sample =
  replica :: int
  ensemble :: 'e
  trajectory :: "'x list"

type_synonym ('e, 'x) sample_set = "('e, 'x) sample list"

text \<open>
  \<^verbatim>\<open>sset[ensemble]\<close>: indexing a sample set by an ensemble is the library's; the notebook
  relies on it to give the sample that occupies the ensemble. The model looks that sample up
  and, as a Python mapping does, raises \<^verbatim>\<open>KeyError\<close> when there is none.
\<close>

definition getitem :: "('e, 'x) sample_set \<Rightarrow> 'e \<Rightarrow> error + ('e, 'x) sample" where
  "getitem sset e =
     (case find (\<lambda>s. ensemble s = e) sset of None \<Rightarrow> Inl KeyError | Some s \<Rightarrow> Inr s)"

text \<open>\<^verbatim>\<open>xs[0]\<close> and \<^verbatim>\<open>xs[-1]\<close> of Python: \<^verbatim>\<open>IndexError\<close> on the empty sequence.\<close>

definition first_item :: "'a list \<Rightarrow> error + 'a" where
  "first_item xs = (case xs of [] \<Rightarrow> Inl IndexError | x # _ \<Rightarrow> Inr x)"

definition last_item :: "'a list \<Rightarrow> error + 'a" where
  "last_item xs = (if xs = [] then Inl IndexError else Inr (last xs))"

text \<open>
  A sampling transition of the network, as the repair loop uses it: its interface ensembles
  (the innermost first) and the volume of its initial state, a predicate on snapshots.
\<close>

record ('e, 'x) transition =
  ensembles :: "'e list"
  stateA :: "'x \<Rightarrow> bool"

section \<open>The repair loop of the MSTIS notebook\<close>

text \<open>
  \<^verbatim>\<open>
  for transition in mstis.sampling_transitions:
      innermost_ensemble = transition.ensembles[0]
      shooter = None
      if not transition.stateA(sset[innermost_ensemble].trajectory[-1]):
          shooter = paths.OneWayShootingMover(ensemble=innermost_ensemble, ...)
          pseudoscheme = paths.LockedMoveScheme(root_mover=shooter)
          pseudosim = paths.PathSampling(storage=None, move_scheme=pseudoscheme,
                                         sample_set=sset)
      while not transition.stateA(sset[innermost_ensemble].trajectory[-1]):
          pseudosim.run(1)
          sset = pseudosim.sample_set
  \<close>
  The loop condition reads the last frame of the trajectory in the innermost ensemble.
\<close>

definition ends_outside ::
  "('e, 'x) transition \<Rightarrow> 'e \<Rightarrow> ('e, 'x) sample_set \<Rightarrow> error + bool" where
  "ends_outside tr innermost_ensemble sset =
     (case getitem sset innermost_ensemble of
        Inl err \<Rightarrow> Inl err
      | Inr s \<Rightarrow>
          (case last_item (trajectory s) of
             Inl err \<Rightarrow> Inl err
           | Inr frame \<Rightarrow> Inr (\<not> stateA tr frame)))"

text \<open>
  One pass of the \<^verbatim>\<open>while\<close> loop runs one Monte Carlo step of the pseudo-simulation, whose
  only mover is the one-way shooter on the innermost ensemble. That step is library code:
  it is the parameter \<open>run1\<close>, a function of the number of steps the pseudo-simulation has
  made so far (which stands for its random draws) and of its sample set, and it is taken
  to return. The loop has no other exit than its condition, so it is a partial function:
  \<open>None\<close> is "does not return".
\<close>

partial_function (option) repair_loop ::
  "(nat \<Rightarrow> ('e, 'x) sample_set \<Rightarrow> ('e, 'x) sample_set) \<Rightarrow>
   (('e, 'x) sample_set \<Rightarrow> error + bool) \<Rightarrow>
   nat \<Rightarrow> ('e, 'x) sample_set \<Rightarrow> (error + ('e, 'x) sample_set) option" where
  "repair_loop run1 cond k sset =
     (case cond sset of
        Inl err \<Rightarrow> Some (Inl err)
      | Inr b \<Rightarrow>
          if b then repair_loop run1 cond (Suc k) (run1 k sset)
          else Some (Inr sset))"

text \<open>The sample set after \<open>n\<close> passes of the loop that started at step \<open>k\<close>.\<close>

fun retries ::
  "(nat \<Rightarrow> ('e, 'x) sample_set \<Rightarrow> ('e, 'x) sample_set) \<Rightarrow>
   nat \<Rightarrow> nat \<Rightarrow> ('e, 'x) sample_set \<Rightarrow> ('e, 'x) sample_set" where
  "retries run1 k 0 sset = sset"
| "retries run1 k (Suc n) sset = retries run1 (Suc k) n (run1 k sset)"

text \<open>
  The body of the \<^verbatim>\<open>for\<close> loop for one transition; \<open>shoot e\<close> is the single step of the
  pseudo-simulation that shoots in ensemble \<open>e\<close>.
\<close>

definition repair_transition ::
  "('e \<Rightarrow> nat \<Rightarrow> ('e, 'x) sample_set \<Rightarrow> ('e, 'x) sample_set) \<Rightarrow>
   ('e, 'x) transition \<Rightarrow> ('e, 'x) sample_set \<Rightarrow> (error + ('e, 'x) sample_set) option" where
  "repair_transition shoot tr sset =
     (case first_item (ensembles tr) of
        Inl err \<Rightarrow> Some (Inl err)
      | Inr innermost_ensemble \<Rightarrow>
          repair_loop (shoot innermost_ensemble) (ends_outside tr innermost_ensemble) 0 sset)"

fun repair_innermost ::
  "('e \<Rightarrow> nat \<Rightarrow> ('e, 'x) sample_set \<Rightarrow> ('e, 'x) sample_set) \<Rightarrow>
   ('e, 'x) transition list \<Rightarrow> ('e, 'x) sample_set \<Rightarrow> (error + ('e, 'x) sample_set) option" where
  "repair_innermost shoot [] sset = Some (Inr sset)"
| "repair_innermost shoot (tr # trs) sset =
     (case repair_transition shoot tr sset of
        None \<Rightarrow> None
      | Some (Inl err) \<Rightarrow> Some (Inl err)
      | Some (Inr sset') \<Rightarrow> repair_innermost shoot trs sset')"

text \<open>
  Concrete inputs: ensembles are numbers, snapshots are integers (a position), the state
  is the set of non-negative positions. \<open>frozen_shooter\<close> is a shooter all of whose trials
  are rejected: the sample set stays as it is. \<open>drift_shooter\<close> moves the last frame of
  every trajectory up by one at each step.
\<close>

definition demo_transition :: "(nat, int) transition" where
  "demo_transition = \<lparr>ensembles = [0, 1], stateA = (\<lambda>x. 0 \<le> x)\<rparr>"

definition demo_sset :: "(nat, int) sample_set" where
  "demo_sset = [\<lparr>replica = 0, ensemble = 0, trajectory = [0, -2]\<rparr>,
                \<lparr>replica = 1, ensemble = 1, trajectory = [0, 3, 0]\<rparr>]"

definition frozen_shooter :: "nat \<Rightarrow> nat \<Rightarrow> (nat, int) sample_set \<Rightarrow> (nat, int) sample_set" where
  "frozen_shooter e k sset = sset"

definition drift_shooter :: "nat \<Rightarrow> nat \<Rightarrow> (nat, int) sample_set \<Rightarrow> (nat, int) sample_set" where
  "drift_shooter e k sset =
     map (\<lambda>s. if ensemble s = e \<and> trajectory s \<noteq> []
              then s\<lparr>trajectory := butlast (trajectory s) @ [last (trajectory s) + 1]\<rparr>
              else s) sset"

section \<open>Estimating the number of iterations\<close>

text \<open>
  Modelled from the spec: \<^verbatim>\<open>scheme.n_steps_for_trials\<close> (the spec's
  \<^verbatim>\<open>estimate_iterations_for_target_trials\<close>) is code of the OpenPathSampling library; the
  notebook only calls it. The spec (section 4.1): given the mover's selection probability
  under the scheme, the operation computes the minimum number of run loop iterations such
  that the expected number of times the mover is chosen reaches the target, by arithmetic.
  The scheme is its move-selection distribution, a function from movers to probabilities;
  the expected number of times a mover is chosen in \<open>n\<close> iterations is \<open>n\<close> times its
  probability. For a mover that is never selected no number of iterations reaches a target:
  the spec does not say what the operation does then, and the model returns \<open>None\<close>.
\<close>

definition estimate_iterations_for_target_trials ::
  "('m \<Rightarrow> rat) \<Rightarrow> 'm \<Rightarrow> int \<Rightarrow> nat option" where
  "estimate_iterations_for_target_trials scheme mover target_trials =
     (let p = scheme mover
      in if p \<le> 0 then None else Some (nat \<lceil>of_int target_trials / p\<rceil>))"

text \<open>
  A scheme with two kinds of movers: a shooting mover is drawn seven times out of ten, a
  minus mover three times out of ten.
\<close>

datatype demo_mover = Shooting | Minus

definition demo_scheme :: "demo_mover \<Rightarrow> rat" where
  "demo_scheme m = (case m of Shooting \<Rightarrow> 7 / 10 | Minus \<Rightarrow> 3 / 10)"

section \<open>Properties of the repair loop\<close>

lemma repair_loop_unroll:
  "\<forall>j<n. cond (retries run1 k j sset) = Inr True \<Longrightarrow>
   repair_loop run1 cond k sset = repair_loop run1 cond (k + n) (retries run1 k n sset)"
proof (induction n arbitrary: k sset)
  case 0
  show ?case by simp
next
  case (Suc n)
  have first: "cond sset = Inr True"
    using Suc.prems by (auto dest: spec [of _ 0])
  have rest: "\<forall>j<n. cond (retries run1 (Suc k) j (run1 k sset)) = Inr True"
  proof (intro allI impI)
    fix j assume "j < n"
    then have "Suc j < Suc n" by simp
    with Suc.prems have "cond (retries run1 k (Suc j) sset) = Inr True" by blast
    then show "cond (retries run1 (Suc k) j (run1 k sset)) = Inr True" by simp
  qed
  have "repair_loop run1 cond k sset = repair_loop run1 cond (Suc k) (run1 k sset)"
    using first by (subst repair_loop.simps) simp
  also have "\<dots> = repair_loop run1 cond (Suc k + n) (retries run1 (Suc k) n (run1 k sset))"
    by (rule Suc.IH [OF rest])
  finally show ?case by simp
qed


lemma repair_loop_returns_valid:
  assumes "repair_loop run1 cond k sset = Some r"
  shows "\<exists>n. (\<forall>j<n. cond (retries run1 k j sset) = Inr True) \<and>
        (case cond (retries run1 k n sset) of
           Inl err \<Rightarrow> r = Inl err
         | Inr b \<Rightarrow> \<not> b \<and> r = Inr (retries run1 k n sset))"
proof (rule repair_loop.raw_induct [where P = "\<lambda>run1 cond k sset r.
        \<exists>n. (\<forall>j<n. cond (retries run1 k j sset) = Inr True) \<and>
        (case cond (retries run1 k n sset) of
           Inl err \<Rightarrow> r = Inl err
         | Inr b \<Rightarrow> \<not> b \<and> r = Inr (retries run1 k n sset))", OF _ assms])
  fix f :: "(nat \<Rightarrow> ('a, 'b) sample_set \<Rightarrow> ('a, 'b) sample_set) \<Rightarrow>
   (('a, 'b) sample_set \<Rightarrow> error + bool) \<Rightarrow>
   nat \<Rightarrow> ('a, 'b) sample_set \<Rightarrow> (error + ('a, 'b) sample_set) option"
  fix run1 cond k sset r
  assume IH: "\<And>run1 cond k sset r. f run1 cond k sset = Some r \<Longrightarrow>
        \<exists>n. (\<forall>j<n. cond (retries run1 k j sset) = Inr True) \<and>
        (case cond (retries run1 k n sset) of
           Inl err \<Rightarrow> r = Inl err
         | Inr b \<Rightarrow> \<not> b \<and> r = Inr (retries run1 k n sset))"
  assume body: "(case cond sset of Inl err \<Rightarrow> Some (Inl err)
      | Inr b \<Rightarrow> if b then f run1 cond (Suc k) (run1 k sset) else Some (Inr sset)) = Some r"
  show "\<exists>n. (\<forall>j<n. cond (retries run1 k j sset) = Inr True) \<and>
        (case cond (retries run1 k n sset) of
           Inl err \<Rightarrow> r = Inl err
         | Inr b \<Rightarrow> \<not> b \<and> r = Inr (retries run1 k n sset))"
  proof (cases "cond sset")
    case (Inl err)
    with body have "r = Inl err" by simp
    with Inl have "(\<forall>j<0::nat. cond (retries run1 k j sset) = Inr True) \<and>
        (case cond (retries run1 k 0 sset) of
           Inl err \<Rightarrow> r = Inl err
         | Inr b \<Rightarrow> \<not> b \<and> r = Inr (retries run1 k 0 sset))" by simp
    then show ?thesis by blast
  next
    case (Inr b)
    show ?thesis
    proof (cases b)
      case False
      with Inr body have "r = Inr sset" by simp
      with Inr False have "(\<forall>j<0::nat. cond (retries run1 k j sset) = Inr True) \<and>
        (case cond (retries run1 k 0 sset) of
           Inl err \<Rightarrow> r = Inl err
         | Inr b \<Rightarrow> \<not> b \<and> r = Inr (retries run1 k 0 sset))" by simp
      then show ?thesis by blast
    next
      case True
      with Inr body have "f run1 cond (Suc k) (run1 k sset) = Some r" by simp
      from IH [OF this] obtain n where
        n: "\<forall>j<n. cond (retries run1 (Suc k) j (run1 k sset)) = Inr True"
           "case cond (retries run1 (Suc k) n (run1 k sset)) of
              Inl err \<Rightarrow> r = Inl err
            | Inr b \<Rightarrow> \<not> b \<and> r = Inr (retries run1 (Suc k) n (run1 k sset))"
        by blast
      have "\<forall>j<Suc n. cond (retries run1 k j sset) = Inr True"
      proof (intro allI impI)
        fix j assume "j < Suc n"
        show "cond (retries run1 k j sset) = Inr True"
        proof (cases j)
          case 0
          with Inr True show ?thesis by simp
        next
          case (Suc i)
          with \<open>j < Suc n\<close> n(1) show ?thesis by simp
        qed
      qed
      moreover have "case cond (retries run1 k (Suc n) sset) of
              Inl err \<Rightarrow> r = Inl err
            | Inr b \<Rightarrow> \<not> b \<and> r = Inr (retries run1 k (Suc n) sset)"
        using n(2) by (simp split: sum.splits)
      ultimately show ?thesis by blast
    qed
  qed
qed

lemma repair_loop_diverges:
  assumes "\<forall>j. cond (retries run1 k j sset) = Inr True"
  shows "repair_loop run1 cond k sset = None"
proof (cases "repair_loop run1 cond k sset")
  case None
  then show ?thesis .
next
  case (Some r)
  from repair_loop_returns_valid [OF Some] obtain n where
    "case cond (retries run1 k n sset) of
       Inl err \<Rightarrow> r = Inl err
     | Inr b \<Rightarrow> \<not> b \<and> r = Inr (retries run1 k n sset)"
    by blast
  with assms show ?thesis by (simp split: sum.splits)
qed

lemma frozen_retries: "retries (frozen_shooter e) k n sset = sset"
  by (induction n arbitrary: k) (simp_all add: frozen_shooter_def)

lemma ends_outside_errors:
  "ends_outside tr e sset = Inl err \<Longrightarrow> err = KeyError \<or> err = IndexError"
  by (auto simp: ends_outside_def getitem_def last_item_def split: option.splits sum.splits if_splits)

lemma repair_transition_errors:
  assumes "repair_transition shoot tr sset = Some (Inl err)"
  shows "err = KeyError \<or> err = IndexError"
proof (cases "ensembles tr")
  case Nil
  with assms show ?thesis
    by (simp add: repair_transition_def first_item_def)
next
  case (Cons e es)
  with assms have "repair_loop (shoot e) (ends_outside tr e) 0 sset = Some (Inl err)"
    by (simp add: repair_transition_def first_item_def)
  from repair_loop_returns_valid [OF this] obtain n where
    "case ends_outside tr e (retries (shoot e) 0 n sset) of
       Inl err' \<Rightarrow> Inl err = (Inl err' :: error + ('a, 'b) sample_set)
     | Inr b \<Rightarrow> \<not> b \<and> Inl err = Inr (retries (shoot e) 0 n sset)"
    by blast
  then have "ends_outside tr e (retries (shoot e) 0 n sset) = Inl err"
    by (simp split: sum.splits)
  then show ?thesis by (rule ends_outside_errors)
qed

lemma repair_innermost_errors:
  "repair_innermost shoot trs sset = Some (Inl err) \<Longrightarrow> err = KeyError \<or> err = IndexError"
proof (induction trs arbitrary: sset)
  case Nil
  then show ?case by simp
next
  case (Cons tr trs)
  show ?case
  proof (cases "repair_transition shoot tr sset")
    case None
    with Cons.prems show ?thesis by simp
  next
    case (Some r)
    show ?thesis
    proof (cases r)
      case (Inl err')
      with Some Cons.prems have "err' = err" by simp
      with Some Inl show ?thesis by (auto dest: repair_transition_errors)
    next
      case (Inr sset')
      with Some Cons.prems have "repair_innermost shoot trs sset' = Some (Inl err)" by simp
      then show ?thesis by (rule Cons.IH)
    qed
  qed
qed

text \<open>
  C1 (as amended). The repair loop of the notebook has no retry budget and raises no
  \<open>IncompleteInitializationError\<close>. For a transition whose innermost ensemble is \<open>e\<close>: if
  the trajectory in \<open>e\<close> still ends outside the state after each of the first \<open>n\<close>
  shooting steps, then the loop returns the sample set reached after \<open>n\<close> steps when that
  one ends in the state, and goes on to step \<open>n + 1\<close> otherwise, whatever \<open>n\<close> is; when no
  number of steps brings the trajectory into the state, the loop does not return. Neither
  the body for one transition nor the whole \<^verbatim>\<open>for\<close> loop ever raises
  \<open>IncompleteInitializationError\<close>.
\<close>

theorem repair_has_no_retry_budget:
  assumes "ensembles tr = e # es"
    and "\<forall>j<n. ends_outside tr e (retries (shoot e) 0 j sset) = Inr True"
  shows "(ends_outside tr e (retries (shoot e) 0 n sset) = Inr False \<longrightarrow>
            repair_transition shoot tr sset = Some (Inr (retries (shoot e) 0 n sset)))
       \<and> (ends_outside tr e (retries (shoot e) 0 n sset) = Inr True \<longrightarrow>
            repair_transition shoot tr sset =
              repair_loop (shoot e) (ends_outside tr e) (Suc n) (retries (shoot e) 0 (Suc n) sset))
       \<and> ((\<forall>j. ends_outside tr e (retries (shoot e) 0 j sset) = Inr True) \<longrightarrow>
            repair_transition shoot tr sset = None)
       \<and> repair_transition shoot tr sset \<noteq> Some (Inl IncompleteInitializationError)
       \<and> repair_innermost shoot trs sset' \<noteq> Some (Inl IncompleteInitializationError)"
proof -
  have rt: "repair_transition shoot tr sset = repair_loop (shoot e) (ends_outside tr e) 0 sset"
    using assms(1) by (simp add: repair_transition_def first_item_def)
  have unroll: "repair_loop (shoot e) (ends_outside tr e) 0 sset =
      repair_loop (shoot e) (ends_outside tr e) n (retries (shoot e) 0 n sset)"
    using repair_loop_unroll [OF assms(2)] by simp
  have a: "repair_transition shoot tr sset = Some (Inr (retries (shoot e) 0 n sset))"
    if "ends_outside tr e (retries (shoot e) 0 n sset) = Inr False"
    using that unfolding rt unroll by (subst repair_loop.simps) simp
  have b: "repair_transition shoot tr sset =
      repair_loop (shoot e) (ends_outside tr e) (Suc n) (retries (shoot e) 0 (Suc n) sset)"
    if last: "ends_outside tr e (retries (shoot e) 0 n sset) = Inr True"
  proof -
    have "\<forall>j<Suc n. ends_outside tr e (retries (shoot e) 0 j sset) = Inr True"
      using assms(2) last by (auto simp: less_Suc_eq)
    from repair_loop_unroll [OF this] show ?thesis unfolding rt by simp
  qed
  have c: "repair_transition shoot tr sset = None"
    if "\<forall>j. ends_outside tr e (retries (shoot e) 0 j sset) = Inr True"
    unfolding rt using that by (rule repair_loop_diverges)
  have d: "repair_transition shoot tr sset \<noteq> Some (Inl IncompleteInitializationError)"
    using repair_transition_errors [of shoot tr sset IncompleteInitializationError] by auto
  have e: "repair_innermost shoot trs sset' \<noteq> Some (Inl IncompleteInitializationError)"
    using repair_innermost_errors [of shoot trs sset' IncompleteInitializationError] by auto
  from a b c d e show ?thesis by blast
qed

text \<open>
  The drifting shooter brings the trajectory \<open>[0, -2]\<close> into the state in two steps.
\<close>

theorem repair_has_no_retry_budget_witness:
  "ensembles demo_transition = 0 # [1]
   \<and> ends_outside demo_transition 0 (retries (drift_shooter 0) 0 0 demo_sset) = Inr True
   \<and> ends_outside demo_transition 0 (retries (drift_shooter 0) 0 1 demo_sset) = Inr True
   \<and> ends_outside demo_transition 0 (retries (drift_shooter 0) 0 2 demo_sset) = Inr False
   \<and> repair_transition drift_shooter demo_transition demo_sset =
       Some (Inr [\<lparr>replica = 0, ensemble = 0, trajectory = [0, 0]\<rparr>,
                  \<lparr>replica = 1, ensemble = 1, trajectory = [0, 3, 0]\<rparr>])"
proof -
  have e: "ensembles demo_transition = 0 # [1]"
    by (simp add: demo_transition_def)
  have r0: "retries (drift_shooter 0) 0 0 demo_sset = demo_sset"
    by simp
  have r1: "retries (drift_shooter 0) 0 (Suc 0) demo_sset =
      [\<lparr>replica = 0, ensemble = 0, trajectory = [0, -1]\<rparr>,
       \<lparr>replica = 1, ensemble = 1, trajectory = [0, 3, 0]\<rparr>]"
    by (simp add: drift_shooter_def demo_sset_def)
  have r2: "retries (drift_shooter 0) 0 2 demo_sset =
      [\<lparr>replica = 0, ensemble = 0, trajectory = [0, 0]\<rparr>,
       \<lparr>replica = 1, ensemble = 1, trajectory = [0, 3, 0]\<rparr>]"
    by (simp add: numeral_2_eq_2 drift_shooter_def demo_sset_def)
  have c0: "ends_outside demo_transition 0 (retries (drift_shooter 0) 0 0 demo_sset) = Inr True"
    unfolding r0 by (simp add: ends_outside_def getitem_def last_item_def demo_sset_def demo_transition_def)
  have c1: "ends_outside demo_transition 0 (retries (drift_shooter 0) 0 (Suc 0) demo_sset) = Inr True"
    unfolding r1 by (simp add: ends_outside_def getitem_def last_item_def demo_transition_def)
  have c2: "ends_outside demo_transition 0 (retries (drift_shooter 0) 0 2 demo_sset) = Inr False"
    unfolding r2 by (simp add: ends_outside_def getitem_def last_item_def demo_transition_def)
  have h: "\<forall>j<2. ends_outside demo_transition 0 (retries (drift_shooter 0) 0 j demo_sset) = Inr True"
    using c0 c1 by (auto simp: numeral_2_eq_2 less_Suc_eq)
  from repair_has_no_retry_budget [where shoot = drift_shooter and tr = demo_transition
      and e = 0 and es = "[1]" and n = 2 and sset = demo_sset, OF e h] c0 c1 c2 r2 e
  show ?thesis by simp
qed

text \<open>
  C1 as stated fails: with a shooter whose trials are all rejected, the innermost
  trajectory \<open>[0, -2]\<close> never ends in the state, and the notebook's loop neither stops
  after some number of retries nor raises: it does not return.
\<close>

theorem repair_retry_budget_counterexample:
  "repair_innermost frozen_shooter [demo_transition] demo_sset = None"
proof -
  have "ends_outside demo_transition 0 demo_sset = Inr True"
    by (simp add: ends_outside_def getitem_def last_item_def demo_sset_def demo_transition_def)
  then have "\<forall>j. ends_outside demo_transition 0 (retries (frozen_shooter 0) 0 j demo_sset) = Inr True"
    by (simp add: frozen_retries)
  then have "repair_loop (frozen_shooter 0) (ends_outside demo_transition 0) 0 demo_sset = None"
    by (rule repair_loop_diverges)
  then have "repair_transition frozen_shooter demo_transition demo_sset = None"
    by (simp add: repair_transition_def first_item_def demo_transition_def)
  then show ?thesis by simp
qed


section \<open>Properties of the estimate\<close>

text \<open>The arithmetic of the model gives the minimum that the spec describes.\<close>

lemma estimate_is_least:
  assumes "estimate_iterations_for_target_trials scheme m t = Some n"
  shows "of_int t \<le> of_nat n * scheme m"
    and "of_int t \<le> of_nat k * scheme m \<Longrightarrow> n \<le> k"
proof -
  let ?p = "scheme m"
  from assms have p: "0 < ?p" and n: "n = nat \<lceil>of_int t / ?p\<rceil>"
    by (auto simp: estimate_iterations_for_target_trials_def Let_def split: if_splits)
  have "of_int t / ?p \<le> of_int \<lceil>of_int t / ?p\<rceil>" by (rule le_of_int_ceiling)
  also have "\<dots> \<le> of_nat n" unfolding n
    by (metis of_int_of_nat_eq of_int_le_iff nat_le_iff order_refl)
  finally have "of_int t / ?p \<le> of_nat n" .
  with p show "of_int t \<le> of_nat n * ?p" by (simp add: pos_divide_le_eq)
  assume "of_int t \<le> of_nat k * ?p"
  with p have "of_int t / ?p \<le> of_nat k" by (simp add: pos_divide_le_eq)
  then have "\<lceil>of_int t / ?p\<rceil> \<le> int k" by (simp add: ceiling_le_iff)
  then show "n \<le> k" unfolding n by simp
qed

text \<open>
  C6. For a mover that the scheme selects with positive probability, the estimate is
  defined for every target, and a larger target never gets a smaller estimate.
\<close>

theorem estimate_monotone_in_target:
  assumes "0 < scheme m" and "t1 \<le> t2"
  shows "\<exists>n1 n2. estimate_iterations_for_target_trials scheme m t1 = Some n1
           \<and> estimate_iterations_for_target_trials scheme m t2 = Some n2 \<and> n1 \<le> n2"
proof -
  let ?p = "scheme m"
  have e1: "estimate_iterations_for_target_trials scheme m t1 = Some (nat \<lceil>of_int t1 / ?p\<rceil>)"
    and e2: "estimate_iterations_for_target_trials scheme m t2 = Some (nat \<lceil>of_int t2 / ?p\<rceil>)"
    using assms(1) by (simp_all add: estimate_iterations_for_target_trials_def Let_def)
  have "of_int t2 \<le> of_nat (nat \<lceil>of_int t2 / ?p\<rceil>) * ?p"
    using e2 by (rule estimate_is_least(1))
  moreover have "(of_int t1 :: rat) \<le> of_int t2" using assms(2) by simp
  ultimately have "of_int t1 \<le> of_nat (nat \<lceil>of_int t2 / ?p\<rceil>) * ?p" by (rule order_trans [rotated])
  with e1 have "nat \<lceil>of_int t1 / ?p\<rceil> \<le> nat \<lceil>of_int t2 / ?p\<rceil>"
    by (rule estimate_is_least(2))
  with e1 e2 show ?thesis by blast
qed

text \<open>
  With the minus mover drawn three times out of ten, ten trials need 34 iterations and
  eleven trials need 37.
\<close>

theorem estimate_monotone_in_target_witness:
  "0 < demo_scheme Minus \<and> (10::int) \<le> 11
   \<and> estimate_iterations_for_target_trials demo_scheme Minus 10 = Some 34
   \<and> estimate_iterations_for_target_trials demo_scheme Minus 11 = Some 37"
proof -
  have p: "demo_scheme Minus = 3 / 10" by (simp add: demo_scheme_def)
  have a: "0 < demo_scheme Minus" by (simp add: p)
  have c: "(10::int) \<le> 11" by simp
  have c1: "\<lceil>(100::rat) / 3\<rceil> = 34" by (rule ceiling_unique) simp_all
  have c2: "\<lceil>(110::rat) / 3\<rceil> = 37" by (rule ceiling_unique) simp_all
  have e1: "estimate_iterations_for_target_trials demo_scheme Minus 10 = Some 34"
    by (simp add: estimate_iterations_for_target_trials_def p c1)
  have e2: "estimate_iterations_for_target_trials demo_scheme Minus 11 = Some 37"
    by (simp add: estimate_iterations_for_target_trials_def p c2)
  from estimate_monotone_in_target [where scheme = demo_scheme and m = Minus
      and ?t1.0 = 10 and ?t2.0 = 11, OF a c] a c e1 e2
  show ?thesis by simp
qed


end
